theory Spec2Isabelle
  imports Main
begin

section \<open>Image Fusion: the application state machine of index.tsx\<close>

text \<open>
  The component \<open>App\<close> keeps its state in React hooks and changes it only in its event
  handlers. Each handler is embedded as a function from the state before the event to the
  state after it. JavaScript strings are lists of code units below 256 (\<open>string\<close>);
  both \<open>null\<close> and \<open>undefined\<close> are \<open>None\<close>; an array read out of range is
  \<open>undefined\<close>, an array write out of range extends the array.
\<close>

subsection \<open>Data\<close>

text \<open>A browser \<open>File\<close>: its name and its media type (\<open>file.type\<close>).\<close>

record File =
  name_file :: string
  type_file :: string

text \<open>\<open>type Result = { id: string; image: string; text: string }\<close>\<close>

record Result =
  id_result :: string
  image :: string
  text_result :: string

text \<open>The eight \<open>useState\<close> cells of \<open>App\<close> except the cosmetic \<open>loadingMessage\<close>,
  which only the timer effect writes.\<close>

record state =
  imageCount :: nat
  images :: "File option list"
  prompt :: string
  loading :: bool
  activeResult :: "Result option"
  history :: "Result list"
  error :: string

definition init :: state where
  "init = \<lparr> imageCount = 2, images = replicate 5 None, prompt = [], loading = False,
            activeResult = None, history = [], error = [] \<rparr>"

subsection \<open>JavaScript primitives used by the handlers\<close>

text \<open>\<open>xs[i]\<close>: \<open>undefined\<close> out of range.\<close>

definition slot :: "'a option list \<Rightarrow> nat \<Rightarrow> 'a option" where
  "slot xs i = (if i < length xs then xs ! i else None)"

text \<open>\<open>xs[i] = v\<close> on a copy of the array: a write past the end leaves holes, which read
  as \<open>undefined\<close>.\<close>

definition array_set :: "'a option list \<Rightarrow> nat \<Rightarrow> 'a option \<Rightarrow> 'a option list" where
  "array_set xs i v =
     (if i < length xs then xs[i := v]
      else xs @ replicate (i - length xs) None @ [v])"

text \<open>\<open>String.prototype.startsWith\<close>\<close>

definition startsWith :: "string \<Rightarrow> string \<Rightarrow> bool" where
  "startsWith s p = (take (length p) s = p)"

text \<open>White space as \<open>String.prototype.trim\<close> sees it, among the code units below 256:
  TAB, LF, VT, FF, CR, SPACE and NBSP.\<close>

definition isWhiteSpace :: "char \<Rightarrow> bool" where
  "isWhiteSpace c = (of_char c \<in> {9, 10, 11, 12, 13, 32, 160 :: nat})"

definition trim :: "string \<Rightarrow> string" where
  "trim s = rev (dropWhile isWhiteSpace (rev (dropWhile isWhiteSpace s)))"

text \<open>\<open>s.split(',')\<close>: the pieces between the commas, at least one piece.\<close>

fun split_comma :: "string \<Rightarrow> string list" where
  "split_comma [] = [[]]"
| "split_comma (c # cs) =
     (if c = CHR '','' then [] # split_comma cs
      else (case split_comma cs of
              [] \<Rightarrow> [[c]]
            | p # ps \<Rightarrow> (c # p) # ps))"

text \<open>\<open>n.toString()\<close> for a non-negative integer: its decimal digits.\<close>

definition digit :: "nat \<Rightarrow> char" where
  "digit d = ''0123456789'' ! d"

function toString :: "nat \<Rightarrow> string" where
  "toString n = (if n < 10 then [digit n] else toString (n div 10) @ [digit (n mod 10)])"
  by pat_completeness auto
termination
  by (relation "measure (\<lambda>n. n)") auto

declare toString.simps [simp del]

subsection \<open>The fuse button\<close>

text \<open>
  \<^verbatim>\<open>const uploadedImages = images.slice(0, imageCount).filter(Boolean);
  return loading || !prompt.trim() || uploadedImages.length !== imageCount;\<close>
\<close>

definition isFuseDisabled :: "state \<Rightarrow> bool" where
  "isFuseDisabled s =
     (let uploadedImages = filter (\<lambda>img. img \<noteq> None) (take (imageCount s) (images s))
      in loading s \<or> trim (prompt s) = [] \<or> length uploadedImages \<noteq> imageCount s)"

subsection \<open>The upload slots\<close>

text \<open>The loop \<open>for (let i = count; i < newImages.length; i++) newImages[i] = null\<close>.\<close>

function clear_from :: "nat \<Rightarrow> File option list \<Rightarrow> File option list" where
  "clear_from i newImages =
     (if i < length newImages then clear_from (Suc i) (newImages[i := None]) else newImages)"
  by pat_completeness auto
termination
  by (relation "measure (\<lambda>(i, newImages). length newImages - i)") auto

declare clear_from.simps [simp del]

text \<open>\<open>handleImageCountChange\<close>, on the number the select element holds.\<close>

definition handleImageCountChange :: "nat \<Rightarrow> state \<Rightarrow> state" where
  "handleImageCountChange count s =
     s\<lparr> imageCount := count, images := clear_from count (images s) \<rparr>"

text \<open>
  \<^verbatim>\<open>if (file && file.type.startsWith('image/')) { newImages[index] = file; setError('') }
  else if (file) { setError('Please upload only image files.') }\<close>
\<close>

definition handleFileChange :: "nat \<Rightarrow> File option \<Rightarrow> state \<Rightarrow> state" where
  "handleFileChange index f s =
     (case f of
        None \<Rightarrow> s
      | Some fl \<Rightarrow>
          if startsWith (type_file fl) ''image/''
          then s\<lparr> images := array_set (images s) index (Some fl), error := [] \<rparr>
          else s\<lparr> error := ''Please upload only image files.'' \<rparr>)"

definition handleRemoveImage :: "nat \<Rightarrow> state \<Rightarrow> state" where
  "handleRemoveImage index s = s\<lparr> images := array_set (images s) index None \<rparr>"

text \<open>The upload boxes rendered: \<open>Array.from({ length: imageCount }).map((_, i) => ...)\<close>
  gives one \<open>ImageUploader\<close> for each of these indices.\<close>

definition addressable :: "state \<Rightarrow> nat list" where
  "addressable s = [0 ..< imageCount s]"

definition handleSelectHistory :: "Result \<Rightarrow> state \<Rightarrow> state" where
  "handleSelectHistory item s = s\<lparr> activeResult := Some item \<rparr>"

definition setPrompt :: "string \<Rightarrow> state \<Rightarrow> state" where
  "setPrompt p s = s\<lparr> prompt := p \<rparr>"

subsection \<open>The remote collaborator and the browser, as the handler sees them\<close>

text \<open>A value that is thrown and caught. The \<open>catch\<close> block reads only its
  \<open>message\<close> property, which a \<open>ProgressEvent\<close> of a failed file read does not have.\<close>

datatype thrown = Thrown "string option"

text \<open>\<open>new Error(msg)\<close>\<close>

definition Error :: "string \<Rightarrow> thrown" where
  "Error msg = Thrown (Some msg)"

text \<open>What \<open>fileToBase64\<close> resolves to: \<open>{ data, mimeType }\<close>.\<close>

record encoded =
  data :: "string option"
  mimeType :: string

text \<open>The response of \<open>generateContent\<close>: candidates (possibly absent); a candidate
  may lack its \<open>content\<close> and a content may lack its \<open>parts\<close>; a part may carry
  \<open>inlineData\<close> (mime type and base64 payload) and may carry \<open>text\<close>.\<close>

record inline =
  mimeType_inline :: string
  data_inline :: string

record part =
  inlineData :: "inline option"
  text_part :: "string option"

record Content =
  parts :: "part list option"

record candidate =
  content :: "Content option"

record response =
  candidates :: "candidate list option"

datatype modality = IMAGE | TEXT

datatype request_part = InlineData encoded | Text string

record request =
  model :: string
  contents :: "request_part list"
  responseModalities :: "modality list"

text \<open>Everything outside the component that one run of \<open>handleFuseClick\<close> consults:
  whether \<open>new GoogleGenAI\<close> throws, what \<open>FileReader.readAsDataURL\<close> yields for a file
  (\<open>None\<close> when \<open>onerror\<close> fires), what the remote call answers to a request,
  \<open>Date.now()\<close>, and the message that the JavaScript engine gives the \<open>TypeError\<close> of
  reading the named property of \<open>undefined\<close>.\<close>

record env =
  newGoogleGenAI :: "thrown option"
  readAsDataURL :: "File \<Rightarrow> string option"
  generateContent :: "request \<Rightarrow> thrown + response"
  now :: nat
  typeErrorMessage :: "string \<Rightarrow> string"

subsection \<open>Fusion\<close>

text \<open>\<open>a || b\<close> on an optional string: \<open>undefined\<close> and the empty string are falsy.\<close>

definition or_else :: "string option \<Rightarrow> string \<Rightarrow> string" where
  "or_else a b = (case a of None \<Rightarrow> b | Some t \<Rightarrow> if t = [] then b else t)"

text \<open>\<open>result.split(',')[1]\<close>\<close>

definition base64Data :: "string \<Rightarrow> string option" where
  "base64Data res = (case split_comma res of _ # d # _ \<Rightarrow> Some d | _ \<Rightarrow> None)"

definition fileToBase64 :: "env \<Rightarrow> File \<Rightarrow> thrown + encoded" where
  "fileToBase64 e fl =
     (case readAsDataURL e fl of
        None \<Rightarrow> Inl (Thrown None)
      | Some res \<Rightarrow> Inr \<lparr> data = base64Data res, mimeType = type_file fl \<rparr>)"

text \<open>\<open>Promise.all\<close>: the list of the values, or a rejection when one of them rejects.\<close>

fun promise_all :: "(thrown + 'a) list \<Rightarrow> thrown + 'a list" where
  "promise_all [] = Inr []"
| "promise_all (Inl e # ps) = Inl e"
| "promise_all (Inr v # ps) =
     (case promise_all ps of Inl e \<Rightarrow> Inl e | Inr vs \<Rightarrow> Inr (v # vs))"

text \<open>\<open>.filter((img): img is File => img !== null)\<close>. The interface writes
  only slots below \<open>imageCount\<close>, inside the five-element array, so the array of a
  reachable state has no hole; the model reads a hole as \<open>null\<close>.\<close>

fun non_null :: "File option list \<Rightarrow> File list" where
  "non_null [] = []"
| "non_null (None # xs) = non_null xs"
| "non_null (Some fl # xs) = fl # non_null xs"

text \<open>\<open>response.candidates?.[0]?.content.parts\<close>: \<open>undefined\<close> when there is no first
  candidate; with a first candidate, reading \<open>parts\<close> of a missing content throws, and so
  does the call of \<open>find\<close> on missing parts, since no optional chaining guards them.\<close>

definition first_parts :: "env \<Rightarrow> response \<Rightarrow> thrown + part list option" where
  "first_parts e r =
     (case candidates r of
        None \<Rightarrow> Inr None
      | Some [] \<Rightarrow> Inr None
      | Some (c # _) \<Rightarrow>
          (case content c of
             None \<Rightarrow> Inl (Error (typeErrorMessage e ''parts''))
           | Some ct \<Rightarrow>
               (case parts ct of
                  None \<Rightarrow> Inl (Error (typeErrorMessage e ''find''))
                | Some ps \<Rightarrow> Inr (Some ps))))"

text \<open>\<open>parts.find(p => p.inlineData)\<close> and \<open>parts.find(p => p.text)\<close>, on what the
  chain above evaluates to; an empty string is falsy, so the second skips a part whose
  text is empty.\<close>

definition imagePart :: "part list option \<Rightarrow> part option" where
  "imagePart po =
     (case po of
        None \<Rightarrow> None
      | Some ps \<Rightarrow> find (\<lambda>p. inlineData p \<noteq> None) ps)"

definition textPart :: "part list option \<Rightarrow> part option" where
  "textPart po =
     (case po of
        None \<Rightarrow> None
      | Some ps \<Rightarrow> find (\<lambda>p. text_part p \<noteq> None \<and> text_part p \<noteq> Some []) ps)"

text \<open>\<open>textPart?.text\<close>\<close>

definition textPart_text :: "part list option \<Rightarrow> string option" where
  "textPart_text po = (case textPart po of None \<Rightarrow> None | Some p \<Rightarrow> text_part p)"

text \<open>The two \<open>find\<close> lines and the branch on \<open>imagePart?.inlineData\<close>: a new
  \<open>Result\<close>, or the thrown error.\<close>

definition interpret_response :: "env \<Rightarrow> response \<Rightarrow> thrown + Result" where
  "interpret_response e r =
     (case first_parts e r of
        Inl ex \<Rightarrow> Inl ex
      | Inr po \<Rightarrow>
         (case (case imagePart po of None \<Rightarrow> None | Some p \<Rightarrow> inlineData p) of
            Some d \<Rightarrow>
              Inr \<lparr> id_result = toString (now e),
                    image = ''data:'' @ mimeType_inline d @ '';base64,'' @ data_inline d,
                    text_result = or_else (textPart_text po) ''Here is your fused image!'' \<rparr>
          | None \<Rightarrow>
              Inl (Error (or_else (textPart_text po)
                     ''The AI could not generate an image from your request.''))))"

text \<open>The \<open>try\<close> block up to the awaited remote call, on the \<open>images\<close>,
  \<open>imageCount\<close> and \<open>prompt\<close> that the handler's closure holds: the response, or
  what was thrown before one arrived.\<close>

definition fuse_request :: "env \<Rightarrow> File option list \<Rightarrow> nat \<Rightarrow> string \<Rightarrow> thrown + response" where
  "fuse_request e imgs cnt prmpt =
     (case newGoogleGenAI e of
        Some ex \<Rightarrow> Inl ex
      | None \<Rightarrow>
         (case promise_all (map (fileToBase64 e) (non_null (take cnt imgs))) of
            Inl ex \<Rightarrow> Inl ex
          | Inr imageParts \<Rightarrow>
              if length imageParts \<noteq> cnt
              then Inl (Error ''Mismatch in image processing. Please try again.'')
              else generateContent e
                     \<lparr> model = ''gemini-2.5-flash-image-preview'',
                       contents = map InlineData imageParts @ [Text prmpt],
                       responseModalities = [IMAGE, TEXT] \<rparr>))"

text \<open>The whole \<open>try\<close> block: either the new result or what was thrown.\<close>

definition fuse_body :: "env \<Rightarrow> File option list \<Rightarrow> nat \<Rightarrow> string \<Rightarrow> thrown + Result" where
  "fuse_body e imgs cnt prmpt =
     (case fuse_request e imgs cnt prmpt of
        Inl ex \<Rightarrow> Inl ex
      | Inr r \<Rightarrow> interpret_response e r)"

text \<open>The three setters before the \<open>try\<close>.\<close>

definition fuse_begin :: "state \<Rightarrow> state" where
  "fuse_begin s = s\<lparr> loading := True, error := [], activeResult := None \<rparr>"

text \<open>The setters after the awaits: those of the success branch or the one of the
  \<open>catch\<close> block, then \<open>finally\<close>. \<open>setHistory\<close> takes the updater
  \<open>prev => [newResult, ...prev.slice(0, 9)]\<close>.\<close>

definition fuse_settle :: "thrown + Result \<Rightarrow> state \<Rightarrow> state" where
  "fuse_settle outcome s =
     (case outcome of
        Inr newResult \<Rightarrow>
          s\<lparr> activeResult := Some newResult,
             history := newResult # take 9 (history s),
             loading := False \<rparr>
      | Inl (Thrown m) \<Rightarrow>
          s\<lparr> error := or_else m ''An error occurred while fusing the images.'',
             loading := False \<rparr>)"

text \<open>One run of \<open>handleFuseClick\<close> with no other event between its start and its end.\<close>

definition handleFuseClick :: "env \<Rightarrow> state \<Rightarrow> state" where
  "handleFuseClick e s =
     fuse_settle (fuse_body e (images s) (imageCount s) (prompt s)) (fuse_begin s)"

text \<open>A fusion attempt fails when the \<open>try\<close> block throws.\<close>

definition fusion_fails :: "env \<Rightarrow> state \<Rightarrow> bool" where
  "fusion_fails e s = (case fuse_body e (images s) (imageCount s) (prompt s) of
                         Inl _ \<Rightarrow> True | Inr _ \<Rightarrow> False)"

text \<open>Fusions one after the other, each with its own surroundings.\<close>

fun fuse_all :: "env list \<Rightarrow> state \<Rightarrow> state" where
  "fuse_all [] s = s"
| "fuse_all (e # es) s = fuse_all es (handleFuseClick e s)"

subsection \<open>Reachable states\<close>

text \<open>The states the interface can bring about from the initial one: the select offers
  2 to 5, an upload box exists for each index below \<open>imageCount\<close>, the history strip
  offers the history's entries, the fuse button works when it is enabled, and a pending
  fusion settles with some outcome while other events may come first.\<close>

inductive reachable :: "state \<Rightarrow> bool" where
  r_init: "reachable init"
| r_count: "reachable s \<Longrightarrow> 2 \<le> count \<Longrightarrow> count \<le> 5 \<Longrightarrow>
            reachable (handleImageCountChange count s)"
| r_file: "reachable s \<Longrightarrow> index < imageCount s \<Longrightarrow> reachable (handleFileChange index f s)"
| r_remove: "reachable s \<Longrightarrow> index < imageCount s \<Longrightarrow> reachable (handleRemoveImage index s)"
| r_prompt: "reachable s \<Longrightarrow> reachable (setPrompt p s)"
| r_select: "reachable s \<Longrightarrow> item \<in> set (history s) \<Longrightarrow> reachable (handleSelectHistory item s)"
| r_begin: "reachable s \<Longrightarrow> \<not> isFuseDisabled s \<Longrightarrow> reachable (fuse_begin s)"
| r_settle: "reachable s \<Longrightarrow> loading s \<Longrightarrow> reachable (fuse_settle outcome s)"

subsection \<open>Sample inputs\<close>

text \<open>Two files, the state with two populated slots and the prompt \<open>merge these\<close>,
  and surroundings in which every file reads and the remote call answers \<open>r\<close> at
  time \<open>t\<close>, on an engine with the messages of V8.\<close>

definition sample_png :: File where
  "sample_png = \<lparr> name_file = ''cat.png'', type_file = ''image/png'' \<rparr>"

definition sample_pdf :: File where
  "sample_pdf = \<lparr> name_file = ''notes.pdf'', type_file = ''application/pdf'' \<rparr>"

definition sample_state :: state where
  "sample_state =
     \<lparr> imageCount = 2, images = [Some sample_png, Some sample_png, None, None, None],
       prompt = ''merge these'', loading = False, activeResult = None, history = [],
       error = [] \<rparr>"

definition engine_message :: "string \<Rightarrow> string" where
  "engine_message prop =
     ''Cannot read properties of undefined (reading '' @ [CHR 0x27] @ prop @ [CHR 0x27] @ '')''"

definition sample_env :: "response \<Rightarrow> nat \<Rightarrow> env" where
  "sample_env r t =
     \<lparr> newGoogleGenAI = None,
       readAsDataURL = (\<lambda>fl. Some (''data:'' @ type_file fl @ '';base64,AAAA'')),
       generateContent = (\<lambda>q. Inr r),
       now = t,
       typeErrorMessage = engine_message \<rparr>"

definition image_part :: "string \<Rightarrow> string \<Rightarrow> part" where
  "image_part m p = \<lparr> inlineData = Some \<lparr> mimeType_inline = m, data_inline = p \<rparr>,
                       text_part = None \<rparr>"

definition text_only_part :: "string \<Rightarrow> part" where
  "text_only_part t = \<lparr> inlineData = None, text_part = Some t \<rparr>"

definition one_candidate :: "part list \<Rightarrow> response" where
  "one_candidate ps = \<lparr> candidates = Some [\<lparr> content = Some \<lparr> parts = Some ps \<rparr> \<rparr>] \<rparr>"

definition sample_result :: "nat \<Rightarrow> Result" where
  "sample_result t = \<lparr> id_result = toString t, image = ''data:image/png;base64,QUJD'',
                        text_result = ''Fused!'' \<rparr>"

text \<open>Five slots in use, the last one populated, and a validation error outstanding.\<close>

definition sample_state5 :: state where
  "sample_state5 =
     \<lparr> imageCount = 5,
       images = [Some sample_png, Some sample_png, None, None, Some sample_png],
       prompt = ''merge these'', loading = False, activeResult = None, history = [],
       error = ''Please upload only image files.'' \<rparr>"

text \<open>The answer of the spec's scenario: one candidate with a PNG image part and the
  text \<open>Fused!\<close>.\<close>

definition sample_response :: response where
  "sample_response = one_candidate [image_part ''image/png'' ''QUJD'', text_only_part ''Fused!'']"

text \<open>The sample state while an earlier result is on display and in the history.\<close>

definition sample_state_shown :: state where
  "sample_state_shown =
     sample_state\<lparr> activeResult := Some (sample_result 1), history := [sample_result 1] \<rparr>"

text \<open>Surroundings in which the remote call is rejected.\<close>

definition failing_env :: env where
  "failing_env =
     \<lparr> newGoogleGenAI = None,
       readAsDataURL = (\<lambda>fl. Some (''data:'' @ type_file fl @ '';base64,AAAA'')),
       generateContent = (\<lambda>q. Inl (Error ''Failed to fetch'')),
       now = 3,
       typeErrorMessage = engine_message \<rparr>"

text \<open>Eleven surroundings, at the times 1 to 11, each answering with the sample response.\<close>

definition sample_envs :: "env list" where
  "sample_envs = map (sample_env sample_response) [1, 2, 3, 4, 5, 6, 7, 8, 9, 10, 11]"

section \<open>Properties\<close>

subsection \<open>Lists and slots\<close>

lemma length_filter_all: "length (filter P ys) = length ys \<longleftrightarrow> (\<forall>x\<in>set ys. P x)"
proof (induction ys)
  case Nil
  show ?case by simp
next
  case (Cons y ys)
  have "length (filter P ys) \<le> length ys" by (rule length_filter_le)
  then have "\<not> P y \<Longrightarrow> length (filter P ys) \<noteq> Suc (length ys)" by arith
  with Cons show ?case by auto
qed

lemma filter_take_len: "length (filter P (take n xs)) = n \<longleftrightarrow> (\<forall>i<n. i < length xs \<and> P (xs ! i))"
proof (cases "n \<le> length xs")
  case True
  then have len: "length (take n xs) = n" by simp
  have "length (filter P (take n xs)) = n \<longleftrightarrow> (\<forall>x\<in>set (take n xs). P x)"
    using length_filter_all [of P "take n xs"] len by simp
  also have "\<dots> \<longleftrightarrow> (\<forall>i<n. P (take n xs ! i))"
    using len by (simp add: all_set_conv_all_nth)
  also have "\<dots> \<longleftrightarrow> (\<forall>i<n. i < length xs \<and> P (xs ! i))"
    using True by auto
  finally show ?thesis .
next
  case False
  then have lt: "length xs < n" by simp
  from lt have tk: "take n xs = xs" by simp
  have "length (filter P xs) \<le> length xs" by (rule length_filter_le)
  with lt have "length (filter P xs) \<noteq> n" by arith
  with tk have "length (filter P (take n xs)) \<noteq> n" by simp
  moreover from lt have "\<not> (\<forall>i<n. i < length xs \<and> P (xs ! i))" by auto
  ultimately show ?thesis by simp
qed

lemma clear_from_eq: "clear_from i xs = take i xs @ replicate (length xs - i) None"
proof (induction i xs rule: clear_from.induct)
  case (1 i xs)
  show ?case
  proof (cases "i < length xs")
    case True
    have "clear_from i xs = clear_from (Suc i) (xs[i := None])"
      using True by (subst clear_from.simps) simp
    also have "\<dots> = take (Suc i) (xs[i := None]) @ replicate (length xs - Suc i) None"
      using 1 True by simp
    also have "take (Suc i) (xs[i := None]) = take i xs @ [None]"
      using True by (simp add: take_Suc_conv_app_nth)
    finally show ?thesis using True by (simp add: replicate_app_Cons_same Suc_diff_Suc flip: replicate_Suc)
  next
    case False
    then show ?thesis by (subst clear_from.simps) simp
  qed
qed


lemma slot_clear_from: "slot (clear_from n xs) i = (if i < n then slot xs i else None)"
proof -
  have "slot (take n xs @ replicate (length xs - n) None) i = (if i < n then slot xs i else None)"
    unfolding slot_def by (auto simp: nth_append)
  then show ?thesis by (simp only: clear_from_eq)
qed

lemma slot_array_set: "slot (array_set xs i v) j = (if j = i then v else slot xs j)"
proof (cases "i < length xs")
  case True
  then show ?thesis by (simp add: slot_def array_set_def)
next
  case False
  then have eq: "array_set xs i v = xs @ replicate (i - length xs) None @ [v]"
    by (simp add: array_set_def)
  have len: "length (xs @ replicate (i - length xs) None @ [v]) = Suc i"
    using False by simp
  show ?thesis
  proof (cases "j < length xs")
    case True
    with False show ?thesis unfolding eq slot_def by (simp add: nth_append)
  next
    case jge: False
    consider "j < i" | "j = i" | "i < j" by arith
    then show ?thesis
    proof cases
      case 1
      with jge False show ?thesis unfolding eq slot_def by (auto simp: nth_append)
    next
      case 2
      with jge False show ?thesis unfolding eq slot_def by (simp add: nth_append)
    next
      case 3
      with jge False show ?thesis unfolding eq slot_def by simp
    qed
  qed
qed

lemma or_else_nonempty: "b \<noteq> [] \<Longrightarrow> or_else a b \<noteq> []"
  by (simp add: or_else_def split: option.splits)

subsection \<open>The fuse button\<close>

text \<open>
  C3. The fuse action is enabled exactly when the prompt is non-empty after trimming
  white space, every slot with an index below \<open>imageCount\<close> holds a file, and no
  fusion is pending.
\<close>

theorem fuse_enabled_iff:
  "\<not> isFuseDisabled s \<longleftrightarrow>
     trim (prompt s) \<noteq> [] \<and> (\<forall>i<imageCount s. slot (images s) i \<noteq> None) \<and> \<not> loading s"
proof -
  have "length (filter (\<lambda>img. img \<noteq> None) (take (imageCount s) (images s))) = imageCount s
          \<longleftrightarrow> (\<forall>i<imageCount s. slot (images s) i \<noteq> None)"
    unfolding filter_take_len slot_def by auto
  then show ?thesis
    unfolding isFuseDisabled_def Let_def by blast
qed

theorem fuse_enabled_iff_witness:
  "\<not> isFuseDisabled sample_state \<and> trim (prompt sample_state) \<noteq> []
     \<and> slot (images sample_state) 0 \<noteq> None \<and> slot (images sample_state) 1 \<noteq> None
     \<and> \<not> loading sample_state
     \<and> isFuseDisabled (handleRemoveImage 1 sample_state)
     \<and> slot (images (handleRemoveImage 1 sample_state)) 1 = None"
proof -
  have p: "trim (prompt sample_state) \<noteq> []"
    by (simp add: sample_state_def trim_def isWhiteSpace_def)
  have s0: "slot (images sample_state) 0 \<noteq> None" and s1: "slot (images sample_state) 1 \<noteq> None"
    by (simp_all add: sample_state_def slot_def)
  have l: "\<not> loading sample_state" by (simp add: sample_state_def)
  have c: "imageCount sample_state = 2" by (simp add: sample_state_def)
  have all: "\<forall>i<imageCount sample_state. slot (images sample_state) i \<noteq> None"
    unfolding c using s0 s1 by (auto simp: less_Suc_eq numeral_2_eq_2)
  have en: "\<not> isFuseDisabled sample_state"
    using fuse_enabled_iff [of sample_state] p all l by blast
  have r1: "slot (images (handleRemoveImage 1 sample_state)) 1 = None"
    by (simp add: handleRemoveImage_def slot_array_set)
  have c': "imageCount (handleRemoveImage 1 sample_state) = 2"
    by (simp add: handleRemoveImage_def sample_state_def)
  have "\<not> (\<forall>i<imageCount (handleRemoveImage 1 sample_state).
               slot (images (handleRemoveImage 1 sample_state)) i \<noteq> None)"
  proof
    assume "\<forall>i<imageCount (handleRemoveImage 1 sample_state).
               slot (images (handleRemoveImage 1 sample_state)) i \<noteq> None"
    from this [unfolded c'] have "slot (images (handleRemoveImage 1 sample_state)) 1 \<noteq> None"
      by simp
    with r1 show False by simp
  qed
  then have dis: "isFuseDisabled (handleRemoveImage 1 sample_state)"
    using fuse_enabled_iff [of "handleRemoveImage 1 sample_state"] by blast
  from en p s0 s1 l dis r1 show ?thesis by blast
qed

subsection \<open>The upload slots\<close>

text \<open>
  C8. Changing the image count to \<open>n\<close> (in particular to 2, 3, 4 or 5) clears every
  slot at an index \<open>n\<close> or above, leaves every slot below \<open>n\<close> as it was, and
  afterwards exactly the \<open>n\<close> indices below \<open>n\<close> are addressable.
\<close>

theorem image_count_change:
  "imageCount (handleImageCountChange n s) = n
   \<and> addressable (handleImageCountChange n s) = [0 ..< n]
   \<and> length (addressable (handleImageCountChange n s)) = n
   \<and> (\<forall>i. n \<le> i \<longrightarrow> slot (images (handleImageCountChange n s)) i = None)
   \<and> (\<forall>i. i < n \<longrightarrow> slot (images (handleImageCountChange n s)) i = slot (images s) i)"
  by (simp add: handleImageCountChange_def addressable_def slot_clear_from)

theorem image_count_change_witness:
  "imageCount (handleImageCountChange 3 sample_state5) = 3
   \<and> addressable (handleImageCountChange 3 sample_state5) = [0, 1, 2]
   \<and> slot (images sample_state5) 4 = Some sample_png
   \<and> slot (images (handleImageCountChange 3 sample_state5)) 4 = None
   \<and> slot (images (handleImageCountChange 3 sample_state5)) 1 = Some sample_png"
proof -
  note t = image_count_change [of 3 sample_state5]
  have a: "slot (images sample_state5) 4 = Some sample_png"
    and b: "slot (images sample_state5) 1 = Some sample_png"
    by (simp_all add: sample_state5_def slot_def)
  have u: "[0 ..< 3] = [0, 1, 2::nat]" by (simp add: upt_rec)
  from t have "slot (images (handleImageCountChange 3 sample_state5)) 4 = None"
    and "slot (images (handleImageCountChange 3 sample_state5)) 1 = slot (images sample_state5) 1"
    by simp_all
  with t a b u show ?thesis by simp
qed

text \<open>
  C6, as amended. For every slot index and every file whose media type does not start
  with \<open>image/\<close>, the file-change handler leaves all slots as they were and sets the
  error to \<open>Please upload only image files.\<close>, with its final period; for every file
  whose media type does start with \<open>image/\<close>, the file is assigned to the slot, the
  other slots keep their content, and the error is cleared.
\<close>

theorem file_change_validation:
  "(\<not> startsWith (type_file fl) ''image/'' \<longrightarrow>
      images (handleFileChange i (Some fl) s) = images s
      \<and> error (handleFileChange i (Some fl) s) = ''Please upload only image files.'')
   \<and> (startsWith (type_file fl) ''image/'' \<longrightarrow>
      slot (images (handleFileChange i (Some fl) s)) i = Some fl
      \<and> (\<forall>j. j \<noteq> i \<longrightarrow> slot (images (handleFileChange i (Some fl) s)) j = slot (images s) j)
      \<and> error (handleFileChange i (Some fl) s) = [])"
  by (simp add: handleFileChange_def slot_array_set)

theorem file_change_validation_witness:
  "\<not> startsWith (type_file sample_pdf) ''image/''
   \<and> images (handleFileChange 1 (Some sample_pdf) sample_state) = images sample_state
   \<and> error (handleFileChange 1 (Some sample_pdf) sample_state) = ''Please upload only image files.''
   \<and> startsWith (type_file sample_png) ''image/''
   \<and> slot (images (handleFileChange 2 (Some sample_png) sample_state5)) 2 = Some sample_png
   \<and> slot (images (handleFileChange 2 (Some sample_png) sample_state5)) 4 = slot (images sample_state5) 4
   \<and> error sample_state5 \<noteq> []
   \<and> error (handleFileChange 2 (Some sample_png) sample_state5) = []"
proof -
  have a: "\<not> startsWith (type_file sample_pdf) ''image/''"
    by (simp add: sample_pdf_def startsWith_def)
  have b: "startsWith (type_file sample_png) ''image/''"
    by (simp add: sample_png_def startsWith_def)
  have c: "error sample_state5 \<noteq> []" by (simp add: sample_state5_def)
  from a b c file_change_validation [of sample_pdf 1 sample_state]
    file_change_validation [of sample_png 2 sample_state5]
  show ?thesis by simp
qed

text \<open>The message that the handler sets is not the string without the final period.\<close>

theorem file_change_message_counterexample:
  "\<not> startsWith (type_file sample_pdf) ''image/''
   \<and> error (handleFileChange 0 (Some sample_pdf) sample_state) \<noteq> ''Please upload only image files''"
  by (simp add: handleFileChange_def sample_pdf_def startsWith_def)

text \<open>
  C7, as amended. For every slot index and every prior content, the remove-image action
  clears the slot; the file-change handler called with no file changes nothing.
\<close>

theorem remove_clears_slot:
  "slot (images (handleRemoveImage i s)) i = None \<and> handleFileChange i None s = s"
  by (simp add: handleRemoveImage_def handleFileChange_def slot_array_set)

text \<open>A populated slot stays populated when the file-change handler is called with no
  file.\<close>

theorem file_change_null_counterexample:
  "slot (images sample_state) 0 = Some sample_png
   \<and> slot (images (handleFileChange 0 None sample_state)) 0 \<noteq> None"
  by (simp add: handleFileChange_def sample_state_def slot_def)

text \<open>
  C10. The remove-image action clears its slot and leaves every other slot and the error
  message as they were. An outstanding error is emptied by an accepted image file and by
  the start of a fusion attempt; no other handler empties it.
\<close>

theorem remove_image_frame:
  "slot (images (handleRemoveImage i s)) i = None
   \<and> (\<forall>j. j \<noteq> i \<longrightarrow> slot (images (handleRemoveImage i s)) j = slot (images s) j)
   \<and> error (handleRemoveImage i s) = error s
   \<and> (startsWith (type_file fl) ''image/'' \<longrightarrow> error (handleFileChange k (Some fl) s) = [])
   \<and> error (fuse_begin s) = []
   \<and> (error s \<noteq> [] \<longrightarrow>
         error (handleRemoveImage i s) \<noteq> []
         \<and> error (handleImageCountChange n s) \<noteq> []
         \<and> error (setPrompt p s) \<noteq> []
         \<and> error (handleSelectHistory item s) \<noteq> []
         \<and> error (handleFileChange k None s) \<noteq> []
         \<and> (\<not> startsWith (type_file fl) ''image/'' \<longrightarrow>
               error (handleFileChange k (Some fl) s) \<noteq> [])
         \<and> error (fuse_settle outcome s) \<noteq> [])"
proof -
  have st: "error s \<noteq> [] \<Longrightarrow> error (fuse_settle outcome s) \<noteq> []"
  proof (cases outcome)
    case (Inl ex)
    obtain m where "ex = Thrown m" by (cases ex)
    with Inl have "error (fuse_settle outcome s)
        = or_else m ''An error occurred while fusing the images.''"
      by (simp add: fuse_settle_def)
    moreover have "or_else m ''An error occurred while fusing the images.'' \<noteq> []"
      by (rule or_else_nonempty) simp
    ultimately show ?thesis by simp
  next
    case (Inr R)
    assume "error s \<noteq> []"
    with Inr show ?thesis by (simp add: fuse_settle_def)
  qed
  show ?thesis
    using st
    by (simp add: handleRemoveImage_def slot_array_set handleFileChange_def fuse_begin_def
        handleImageCountChange_def setPrompt_def handleSelectHistory_def)
qed

theorem remove_image_frame_witness:
  "slot (images sample_state5) 4 = Some sample_png
   \<and> slot (images (handleRemoveImage 4 sample_state5)) 4 = None
   \<and> slot (images (handleRemoveImage 4 sample_state5)) 0 = Some sample_png
   \<and> error (handleRemoveImage 4 sample_state5) = ''Please upload only image files.''
   \<and> error (handleFileChange 2 (Some sample_png) sample_state5) = []
   \<and> error (fuse_begin sample_state5) = []
   \<and> error (handleFileChange 2 (Some sample_pdf) sample_state5) \<noteq> []"
proof -
  note t = remove_image_frame [where i = 4 and s = sample_state5 and fl = sample_png and k = 2]
  note u = remove_image_frame [where i = 4 and s = sample_state5 and fl = sample_pdf and k = 2]
  have a: "slot (images sample_state5) 4 = Some sample_png"
    and a0: "slot (images sample_state5) 0 = Some sample_png"
    by (simp_all add: sample_state5_def slot_def)
  have e: "error sample_state5 = ''Please upload only image files.''"
    by (simp add: sample_state5_def)
  then have ne: "error sample_state5 \<noteq> []" by simp
  have png: "startsWith (type_file sample_png) ''image/''"
    by (simp add: sample_png_def startsWith_def)
  have pdf: "\<not> startsWith (type_file sample_pdf) ''image/''"
    by (simp add: sample_pdf_def startsWith_def)
  from t have b: "slot (images (handleRemoveImage 4 sample_state5)) 4 = None"
    by (rule conjunct1)
  from t a0 have c: "slot (images (handleRemoveImage 4 sample_state5)) 0 = Some sample_png"
    by simp
  from t e have d: "error (handleRemoveImage 4 sample_state5) = ''Please upload only image files.''"
    by simp
  from t png have f: "error (handleFileChange 2 (Some sample_png) sample_state5) = []"
    by simp
  from t have g: "error (fuse_begin sample_state5) = []" by simp
  from u ne pdf have h: "error (handleFileChange 2 (Some sample_pdf) sample_state5) \<noteq> []"
    by simp
  from a b c d f g h show ?thesis by (intro conjI)
qed

subsection \<open>Fusion: auxiliary facts\<close>

lemma find_first:
  "\<forall>p\<in>set pre. \<not> P p \<Longrightarrow> P x \<Longrightarrow> find P (pre @ x # post) = Some x"
  by (induction pre) simp_all

lemma find_absent: "\<forall>p\<in>set ps. \<not> P p \<Longrightarrow> find P ps = None"
  by (induction ps) simp_all

lemma handleFuseClick_success:
  "fuse_body e (images s) (imageCount s) (prompt s) = Inr R \<Longrightarrow>
   handleFuseClick e s =
     s\<lparr> loading := False, error := [], activeResult := Some R,
        history := R # take 9 (history s) \<rparr>"
  by (simp add: handleFuseClick_def fuse_settle_def fuse_begin_def)

lemma handleFuseClick_failure:
  "fuse_body e (images s) (imageCount s) (prompt s) = Inl (Thrown m) \<Longrightarrow>
   handleFuseClick e s =
     s\<lparr> loading := False,
        error := or_else m ''An error occurred while fusing the images.'',
        activeResult := None \<rparr>"
  by (simp add: handleFuseClick_def fuse_settle_def fuse_begin_def)

lemma fusion_fails_iff:
  "fusion_fails e s \<longleftrightarrow> (\<exists>m. fuse_body e (images s) (imageCount s) (prompt s) = Inl (Thrown m))"
proof (cases "fuse_body e (images s) (imageCount s) (prompt s)")
  case (Inl ex)
  then show ?thesis by (cases ex) (simp add: fusion_fails_def)
next
  case (Inr R)
  then show ?thesis by (simp add: fusion_fails_def)
qed

lemma interpret_image:
  assumes "first_parts e r = Inr (Some (ipre @ ip # ipost))"
    and "\<forall>p\<in>set ipre. inlineData p = None"
    and "inlineData ip = Some d"
  shows "interpret_response e r =
           Inr \<lparr> id_result = toString (now e),
                 image = ''data:'' @ mimeType_inline d @ '';base64,'' @ data_inline d,
                 text_result = or_else (textPart_text (Some (ipre @ ip # ipost)))
                                 ''Here is your fused image!'' \<rparr>"
proof -
  have "find (\<lambda>p. inlineData p \<noteq> None) (ipre @ ip # ipost) = Some ip"
    using assms(2,3) by (intro find_first) simp_all
  then have "imagePart (Some (ipre @ ip # ipost)) = Some ip" by (simp add: imagePart_def)
  then show ?thesis using assms(1,3) by (simp add: interpret_response_def)
qed

lemma interpret_no_image:
  assumes "first_parts e r = Inr (Some ps)" and "\<forall>p\<in>set ps. inlineData p = None"
  shows "interpret_response e r =
           Inl (Error (or_else (textPart_text (Some ps))
                  ''The AI could not generate an image from your request.''))"
proof -
  have "find (\<lambda>p. inlineData p \<noteq> None) ps = None"
    using assms(2) by (intro find_absent) simp
  then have "imagePart (Some ps) = None" by (simp add: imagePart_def)
  then show ?thesis using assms(1) by (simp add: interpret_response_def)
qed

lemma text_first:
  assumes "\<forall>p\<in>set tpre. text_part p = None \<or> text_part p = Some []"
    and "text_part tp = Some T" and "T \<noteq> []"
  shows "textPart_text (Some (tpre @ tp # tpost)) = Some T"
proof -
  have "find (\<lambda>p. text_part p \<noteq> None \<and> text_part p \<noteq> Some []) (tpre @ tp # tpost) = Some tp"
    using assms by (intro find_first) auto
  then show ?thesis using assms(2) by (simp add: textPart_text_def textPart_def)
qed

lemma text_absent:
  assumes "\<forall>p\<in>set ps. text_part p = None \<or> text_part p = Some []"
  shows "textPart_text (Some ps) = None"
proof -
  have "find (\<lambda>p. text_part p \<noteq> None \<and> text_part p \<noteq> Some []) ps = None"
    using assms by (intro find_absent) auto
  then show ?thesis by (simp add: textPart_text_def textPart_def)
qed

text \<open>A first candidate without content, or a content without parts: the \<open>TypeError\<close> is
  what the \<open>try\<close> block throws, and its message, when not empty, is the error shown.\<close>

lemma missing_content_throws:
  assumes "candidates r = Some (c # cs)"
    and "content c = None \<or> (\<exists>ct. content c = Some ct \<and> parts ct = None)"
  shows "\<exists>prop. interpret_response e r = Inl (Error (typeErrorMessage e prop))"
  using assms by (auto simp: interpret_response_def first_parts_def)

lemma fuse_body_response:
  "fuse_request e imgs cnt prmpt = Inr r \<Longrightarrow> fuse_body e imgs cnt prmpt = interpret_response e r"
  by (simp add: fuse_body_def)

text \<open>The failures by kind: a count mismatch after encoding, a rejected remote call (or
  anything else thrown before a response arrives), and a response without an image part.\<close>

lemma promise_all_reads:
  "\<forall>fl\<in>set fs. readAsDataURL e fl \<noteq> None \<Longrightarrow>
   \<exists>vs. promise_all (map (fileToBase64 e) fs) = Inr vs \<and> length vs = length fs"
proof (induction fs)
  case Nil
  show ?case by simp
next
  case (Cons fl fs)
  then obtain vs where vs: "promise_all (map (fileToBase64 e) fs) = Inr vs"
    and len: "length vs = length fs" by auto
  from Cons.prems obtain res where "readAsDataURL e fl = Some res" by auto
  then have "fileToBase64 e fl = Inr \<lparr> data = base64Data res, mimeType = type_file fl \<rparr>"
    by (simp add: fileToBase64_def)
  with vs len show ?case by simp
qed

lemma mismatch_fails:
  assumes "newGoogleGenAI e = None"
    and "\<forall>fl\<in>set (non_null (take (imageCount s) (images s))). readAsDataURL e fl \<noteq> None"
    and "length (non_null (take (imageCount s) (images s))) \<noteq> imageCount s"
  shows "fuse_body e (images s) (imageCount s) (prompt s)
           = Inl (Error ''Mismatch in image processing. Please try again.'')"
    and "fusion_fails e s"
proof -
  from promise_all_reads [OF assms(2)] obtain vs where
    "promise_all (map (fileToBase64 e) (non_null (take (imageCount s) (images s)))) = Inr vs"
    and "length vs = length (non_null (take (imageCount s) (images s)))" by blast
  with assms(1,3) show
    b: "fuse_body e (images s) (imageCount s) (prompt s)
           = Inl (Error ''Mismatch in image processing. Please try again.'')"
    by (simp add: fuse_body_def fuse_request_def)
  then show "fusion_fails e s" by (simp add: fusion_fails_def)
qed

lemma transport_fails:
  "fuse_request e (images s) (imageCount s) (prompt s) = Inl ex \<Longrightarrow> fusion_fails e s"
  by (simp add: fusion_fails_def fuse_body_def)

lemma no_image_fails:
  assumes "fuse_request e (images s) (imageCount s) (prompt s) = Inr r"
    and "first_parts e r = Inr po" and "imagePart po = None"
  shows "fusion_fails e s"
  using assms by (simp add: fusion_fails_def fuse_body_def interpret_response_def)

lemma missing_content_fails:
  assumes "fuse_request e (images s) (imageCount s) (prompt s) = Inr r"
    and "first_parts e r = Inl ex"
  shows "fusion_fails e s"
  using assms by (simp add: fusion_fails_def fuse_body_def interpret_response_def)

text \<open>Repeated fusion and the history.\<close>

lemma take_append_take: "take n (xs @ take n ys) = take n (xs @ ys)"
  by (simp add: min_def)

lemma fuse_keeps_inputs:
  "images (handleFuseClick e s) = images s"
  "imageCount (handleFuseClick e s) = imageCount s"
  "prompt (handleFuseClick e s) = prompt s"
proof -
  show "images (handleFuseClick e s) = images s"
    by (cases "fuse_body e (images s) (imageCount s) (prompt s)")
       (auto simp: handleFuseClick_def fuse_settle_def fuse_begin_def split: thrown.splits)
  show "imageCount (handleFuseClick e s) = imageCount s"
    by (cases "fuse_body e (images s) (imageCount s) (prompt s)")
       (auto simp: handleFuseClick_def fuse_settle_def fuse_begin_def split: thrown.splits)
  show "prompt (handleFuseClick e s) = prompt s"
    by (cases "fuse_body e (images s) (imageCount s) (prompt s)")
       (auto simp: handleFuseClick_def fuse_settle_def fuse_begin_def split: thrown.splits)
qed

lemma fuse_all_history:
  "es \<noteq> [] \<Longrightarrow>
   map (\<lambda>e. fuse_body e (images s) (imageCount s) (prompt s)) es = map Inr rs \<Longrightarrow>
   history (fuse_all es s) = take 10 (rev rs @ history s)"
proof (induction es arbitrary: s rs)
  case Nil
  then show ?case by simp
next
  case (Cons e es)
  from Cons.prems obtain R rs' where rs: "rs = R # rs'"
    and b: "fuse_body e (images s) (imageCount s) (prompt s) = Inr R"
    and rest: "map (\<lambda>e. fuse_body e (images s) (imageCount s) (prompt s)) es = map Inr rs'"
    by (cases rs) auto
  let ?s1 = "handleFuseClick e s"
  have h1: "history ?s1 = take 10 (R # history s)"
    using handleFuseClick_success [OF b] by simp
  show ?case
  proof (cases "es = []")
    case True
    with rest have "rs' = []" by simp
    with True rs h1 show ?thesis by simp
  next
    case False
    have "map (\<lambda>e. fuse_body e (images ?s1) (imageCount ?s1) (prompt ?s1)) es = map Inr rs'"
      using rest by (simp add: fuse_keeps_inputs)
    with False have "history (fuse_all es ?s1) = take 10 (rev rs' @ history ?s1)"
      by (rule Cons.IH)
    also have "\<dots> = take 10 (rev rs' @ take 10 (R # history s))"
      by (simp only: h1)
    also have "\<dots> = take 10 (rev rs' @ R # history s)"
      by (rule take_append_take)
    finally show ?thesis using rs by simp
  qed
qed

lemma settle_history_length:
  "length (history s) \<le> 10 \<Longrightarrow> length (history (fuse_settle outcome s)) \<le> 10"
  by (cases outcome) (auto simp: fuse_settle_def split: thrown.splits)

lemma reachable_history_length: "reachable s \<Longrightarrow> length (history s) \<le> 10"
proof (induction rule: reachable.induct)
  case r_init
  show ?case by (simp add: init_def)
next
  case (r_count s count)
  then show ?case by (simp add: handleImageCountChange_def)
next
  case (r_file s index f)
  then show ?case by (cases f) (simp_all add: handleFileChange_def)
next
  case (r_remove s index)
  then show ?case by (simp add: handleRemoveImage_def)
next
  case (r_prompt s p)
  then show ?case by (simp add: setPrompt_def)
next
  case (r_select s item)
  then show ?case by (simp add: handleSelectHistory_def)
next
  case (r_begin s)
  then show ?case by (simp add: fuse_begin_def)
next
  case (r_settle s outcome)
  then show ?case by (simp add: settle_history_length)
qed

lemma take_9_butlast: "length (h::'a list) = 10 \<Longrightarrow> take 9 h = butlast h"
  by (simp add: butlast_conv_take)

text \<open>The sample inputs evaluated.\<close>

lemma sample_request:
  "images s = images sample_state \<Longrightarrow> imageCount s = 2 \<Longrightarrow>
   fuse_request (sample_env r t) (images s) (imageCount s) (prompt s) = Inr r"
  by (simp add: fuse_request_def sample_env_def sample_state_def fileToBase64_def
      numeral_2_eq_2)

lemma sample_shown_fields:
  "images sample_state_shown = images sample_state" "imageCount sample_state_shown = 2"
  "imageCount sample_state = 2"
  by (simp_all add: sample_state_shown_def sample_state_def)

lemma sample_parts: "first_parts e (one_candidate ps) = Inr (Some ps)"
  by (simp add: first_parts_def one_candidate_def)

lemma sample_fuse_ok:
  "fuse_body (sample_env sample_response t) (images sample_state) (imageCount sample_state)
     (prompt sample_state) = Inr (sample_result t)"
proof -
  have "fuse_request (sample_env sample_response t) (images sample_state)
          (imageCount sample_state) (prompt sample_state) = Inr sample_response"
    by (rule sample_request) (simp_all add: sample_shown_fields)
  moreover have "interpret_response (sample_env sample_response t) sample_response
                   = Inr (sample_result t)"
    by (simp add: interpret_response_def imagePart_def textPart_text_def textPart_def
        sample_response_def sample_parts image_part_def text_only_part_def or_else_def
        sample_env_def sample_result_def)
  ultimately show ?thesis by (simp add: fuse_body_def)
qed

lemma sample_interpret_text_only:
  "interpret_response (sample_env r t) (one_candidate [text_only_part T]) =
     Inl (Error (or_else (Some T) ''The AI could not generate an image from your request.''))"
  by (simp add: interpret_response_def imagePart_def textPart_text_def textPart_def
      sample_parts text_only_part_def or_else_def)

lemma sample_fuse_text_only:
  "images s = images sample_state \<Longrightarrow> imageCount s = 2 \<Longrightarrow>
   fuse_body (sample_env (one_candidate [text_only_part T]) t) (images s) (imageCount s) (prompt s)
     = Inl (Thrown (Some (or_else (Some T)
          ''The AI could not generate an image from your request.'')))"
  using sample_request [of s "one_candidate [text_only_part T]" t]
  by (simp add: fuse_body_def sample_interpret_text_only Error_def)

lemma sample_state_reachable: "reachable sample_state"
proof -
  have eq: "sample_state =
      setPrompt ''merge these''
        (handleFileChange 1 (Some sample_png) (handleFileChange 0 (Some sample_png) init))"
    by (simp add: sample_state_def setPrompt_def handleFileChange_def init_def array_set_def
        sample_png_def startsWith_def eval_nat_numeral)
  have c: "imageCount init = 2" by (simp add: init_def)
  have r0: "reachable (handleFileChange 0 (Some sample_png) init)"
    by (rule r_file [OF r_init]) (simp add: c)
  have "imageCount (handleFileChange 0 (Some sample_png) init) = 2"
    by (cases "startsWith (type_file sample_png) ''image/''")
       (simp_all add: handleFileChange_def init_def)
  then have "1 < imageCount (handleFileChange 0 (Some sample_png) init)" by simp
  with r0 have
    "reachable (handleFileChange 1 (Some sample_png) (handleFileChange 0 (Some sample_png) init))"
    by (rule r_file)
  then show ?thesis unfolding eq by (rule r_prompt)
qed

lemma sample_state_enabled: "\<not> isFuseDisabled sample_state"
  by (simp add: isFuseDisabled_def sample_state_def trim_def isWhiteSpace_def eval_nat_numeral)

subsection \<open>Fusion: the result\<close>

text \<open>
  C4, as amended. When the remote call answers and, in the first candidate, the first part
  carrying inline data has mime type \<open>M\<close> and payload \<open>P\<close> and the first part carrying a
  non-empty text has the text \<open>T\<close>, the fusion succeeds; afterwards the active result is
  the result with image \<open>data:M;base64,P\<close> and text \<open>T\<close> (its id is the time as a decimal
  string), and the first element of the history is that same result.
\<close>

theorem fusion_success_result:
  assumes "fuse_request e (images s) (imageCount s) (prompt s) = Inr r"
    and "first_parts e r = Inr (Some ps)"
    and "ps = ipre @ ip # ipost"
    and "\<forall>p\<in>set ipre. inlineData p = None"
    and "inlineData ip = Some \<lparr> mimeType_inline = M, data_inline = P \<rparr>"
    and "ps = tpre @ tp # tpost"
    and "\<forall>p\<in>set tpre. text_part p = None \<or> text_part p = Some []"
    and "text_part tp = Some T" and "T \<noteq> []"
  shows "\<not> fusion_fails e s
    \<and> activeResult (handleFuseClick e s) =
        Some \<lparr> id_result = toString (now e), image = ''data:'' @ M @ '';base64,'' @ P,
               text_result = T \<rparr>
    \<and> hd (history (handleFuseClick e s)) =
        \<lparr> id_result = toString (now e), image = ''data:'' @ M @ '';base64,'' @ P,
          text_result = T \<rparr>
    \<and> history (handleFuseClick e s) \<noteq> []"
proof -
  let ?R = "\<lparr> id_result = toString (now e), image = ''data:'' @ M @ '';base64,'' @ P,
               text_result = T \<rparr>"
  have t: "textPart_text (Some ps) = Some T"
    unfolding assms(6) using assms(7,8,9) by (rule text_first)
  have "interpret_response e r = Inr ?R"
    using interpret_image [of e r ipre ip ipost "\<lparr> mimeType_inline = M, data_inline = P \<rparr>"]
      assms(2,3,4,5) t assms(9)
    by (simp add: or_else_def)
  then have b: "fuse_body e (images s) (imageCount s) (prompt s) = Inr ?R"
    using assms(1) by (simp add: fuse_body_response)
  have "handleFuseClick e s =
     s\<lparr> loading := False, error := [], activeResult := Some ?R,
        history := ?R # take 9 (history s) \<rparr>"
    using b by (rule handleFuseClick_success)
  then show ?thesis using b by (simp add: fusion_fails_def)
qed

theorem fusion_success_result_witness:
  "\<not> fusion_fails (sample_env sample_response 1700000000123) sample_state
   \<and> activeResult (handleFuseClick (sample_env sample_response 1700000000123) sample_state) =
        Some \<lparr> id_result = ''1700000000123'', image = ''data:image/png;base64,QUJD'',
               text_result = ''Fused!'' \<rparr>
   \<and> hd (history (handleFuseClick (sample_env sample_response 1700000000123) sample_state)) =
        \<lparr> id_result = ''1700000000123'', image = ''data:image/png;base64,QUJD'',
          text_result = ''Fused!'' \<rparr>"
proof -
  let ?e = "sample_env sample_response 1700000000123"
  have req: "fuse_request ?e (images sample_state) (imageCount sample_state)
               (prompt sample_state) = Inr sample_response"
    by (rule sample_request) (simp_all add: sample_shown_fields)
  have ps: "first_parts ?e sample_response
              = Inr (Some [image_part ''image/png'' ''QUJD'', text_only_part ''Fused!''])"
    by (simp add: sample_response_def sample_parts)
  have n: "toString (now ?e) = ''1700000000123''"
    by (simp add: sample_env_def toString.simps digit_def)
  have "\<not> fusion_fails ?e sample_state
    \<and> activeResult (handleFuseClick ?e sample_state) =
        Some \<lparr> id_result = toString (now ?e),
               image = ''data:'' @ ''image/png'' @ '';base64,'' @ ''QUJD'',
               text_result = ''Fused!'' \<rparr>
    \<and> hd (history (handleFuseClick ?e sample_state)) =
        \<lparr> id_result = toString (now ?e),
          image = ''data:'' @ ''image/png'' @ '';base64,'' @ ''QUJD'',
          text_result = ''Fused!'' \<rparr>
    \<and> history (handleFuseClick ?e sample_state) \<noteq> []"
    by (rule fusion_success_result [OF req ps,
          where ipre = "[]" and ip = "image_part ''image/png'' ''QUJD''"
            and ipost = "[text_only_part ''Fused!'']"
            and tpre = "[image_part ''image/png'' ''QUJD'']"
            and tp = "text_only_part ''Fused!''" and tpost = "[]"])
       (simp_all add: image_part_def text_only_part_def)
  then show ?thesis unfolding n by simp
qed

text \<open>With an image part and a text part whose text is the empty string, the caption is
  the fallback and not that text.\<close>

theorem fusion_empty_caption_counterexample:
  "first_parts
       (sample_env (one_candidate [image_part ''image/png'' ''QUJD'', text_only_part []]) 7)
       (one_candidate [image_part ''image/png'' ''QUJD'', text_only_part []])
     = Inr (Some [image_part ''image/png'' ''QUJD'', text_only_part []])
   \<and> text_part (text_only_part []) = Some []
   \<and> activeResult (handleFuseClick
         (sample_env (one_candidate [image_part ''image/png'' ''QUJD'', text_only_part []]) 7)
         sample_state)
     = Some \<lparr> id_result = ''7'', image = ''data:image/png;base64,QUJD'',
              text_result = ''Here is your fused image!'' \<rparr>
   \<and> activeResult (handleFuseClick
         (sample_env (one_candidate [image_part ''image/png'' ''QUJD'', text_only_part []]) 7)
         sample_state)
     \<noteq> Some \<lparr> id_result = ''7'', image = ''data:image/png;base64,QUJD'',
              text_result = [] \<rparr>"
proof -
  let ?r = "one_candidate [image_part ''image/png'' ''QUJD'', text_only_part []]"
  let ?e = "sample_env ?r 7"
  have "fuse_request ?e (images sample_state) (imageCount sample_state)
               (prompt sample_state) = Inr ?r"
    by (rule sample_request) (simp_all add: sample_shown_fields)
  moreover have "interpret_response ?e ?r =
      Inr \<lparr> id_result = ''7'', image = ''data:image/png;base64,QUJD'',
              text_result = ''Here is your fused image!'' \<rparr>"
    by (simp add: interpret_response_def imagePart_def textPart_text_def textPart_def
        sample_parts image_part_def text_only_part_def or_else_def
        sample_env_def toString.simps digit_def)
  ultimately have "fuse_body ?e (images sample_state) (imageCount sample_state)
               (prompt sample_state) = Inr \<lparr> id_result = ''7'', image = ''data:image/png;base64,QUJD'',
              text_result = ''Here is your fused image!'' \<rparr>"
    by (simp add: fuse_body_def)
  from handleFuseClick_success [OF this] show ?thesis
    by (simp add: sample_parts text_only_part_def)
qed

text \<open>
  C5, as amended. When the remote call answers and the first candidate carries a list of
  content parts none of which carries inline data, the fusion fails; the error message is
  the text of the first part whose text is non-empty when there is such a part, and the
  fixed fallback \<open>The AI could not generate an image from your request.\<close> when every
  part has no text or the empty text.
\<close>

theorem no_image_error_message:
  assumes "fuse_request e (images s) (imageCount s) (prompt s) = Inr r"
    and "first_parts e r = Inr (Some ps)"
    and "\<forall>p\<in>set ps. inlineData p = None"
  shows "fusion_fails e s
    \<and> (\<forall>tpre tp tpost T.
          ps = tpre @ tp # tpost
          \<and> (\<forall>p\<in>set tpre. text_part p = None \<or> text_part p = Some [])
          \<and> text_part tp = Some T \<and> T \<noteq> []
          \<longrightarrow> error (handleFuseClick e s) = T)
    \<and> ((\<forall>p\<in>set ps. text_part p = None \<or> text_part p = Some [])
          \<longrightarrow> error (handleFuseClick e s) =
                ''The AI could not generate an image from your request.'')"
proof -
  let ?m = "or_else (textPart_text (Some ps))
              ''The AI could not generate an image from your request.''"
  have b: "fuse_body e (images s) (imageCount s) (prompt s) = Inl (Thrown (Some ?m))"
    using assms(1) interpret_no_image [OF assms(2,3)]
    by (simp add: fuse_body_response Error_def)
  have ne: "?m \<noteq> []" by (rule or_else_nonempty) simp
  have err: "error (handleFuseClick e s) = ?m"
    using handleFuseClick_failure [OF b] ne by (simp add: or_else_def)
  have fails: "fusion_fails e s" using b by (simp add: fusion_fails_def)
  have first: "error (handleFuseClick e s) = T"
    if "ps = tpre @ tp # tpost"
      and "\<forall>p\<in>set tpre. text_part p = None \<or> text_part p = Some []"
      and "text_part tp = Some T" and "T \<noteq> []" for tpre tp tpost T
  proof -
    have "textPart_text (Some ps) = Some T"
      unfolding that(1) using that(2,3,4) by (rule text_first)
    with err that(4) show ?thesis by (simp add: or_else_def)
  qed
  have none: "error (handleFuseClick e s) = ''The AI could not generate an image from your request.''"
    if "\<forall>p\<in>set ps. text_part p = None \<or> text_part p = Some []"
  proof -
    have "textPart_text (Some ps) = None" using that by (rule text_absent)
    with err show ?thesis by (simp add: or_else_def)
  qed
  from fails first none show ?thesis by blast
qed

theorem no_image_error_message_witness:
  "fusion_fails (sample_env (one_candidate [text_only_part ''unsafe content'']) 5) sample_state
   \<and> error (handleFuseClick (sample_env (one_candidate [text_only_part ''unsafe content'']) 5)
        sample_state) = ''unsafe content''
   \<and> fusion_fails (sample_env (one_candidate []) 5) sample_state
   \<and> error (handleFuseClick (sample_env (one_candidate []) 5) sample_state) =
        ''The AI could not generate an image from your request.''"
proof -
  let ?r = "one_candidate [text_only_part ''unsafe content'']"
  have req: "fuse_request (sample_env ?r 5) (images sample_state) (imageCount sample_state)
               (prompt sample_state) = Inr ?r"
    by (rule sample_request) (simp_all add: sample_shown_fields)
  have ni: "\<forall>p\<in>set [text_only_part ''unsafe content'']. inlineData p = None"
    by (simp add: text_only_part_def)
  note a = no_image_error_message [OF req sample_parts ni]
  note a1 = a [THEN conjunct1]
  have a2: "error (handleFuseClick (sample_env ?r 5) sample_state) = ''unsafe content''"
    by (rule a [THEN conjunct2, THEN conjunct1, rule_format,
          of "[]" "text_only_part ''unsafe content''" "[]"])
       (simp add: text_only_part_def)
  have req': "fuse_request (sample_env (one_candidate []) 5) (images sample_state)
               (imageCount sample_state) (prompt sample_state) = Inr (one_candidate [])"
    by (rule sample_request) (simp_all add: sample_shown_fields)
  have ni': "\<forall>p\<in>set []. inlineData (p::part) = None" by simp
  note b = no_image_error_message [OF req' sample_parts ni']
  note b1 = b [THEN conjunct1]
  have b2: "error (handleFuseClick (sample_env (one_candidate []) 5) sample_state) =
        ''The AI could not generate an image from your request.''"
    by (rule b [THEN conjunct2, THEN conjunct2, rule_format]) simp
  from a1 a2 b1 b2 show ?thesis by (intro conjI)
qed

text \<open>With no image part and a text part whose text is the empty string, the error message
  is the fallback and not that empty text; and with a first candidate that has no content,
  so no image part and no text part, the error message is the engine's and not the
  fallback.\<close>

theorem no_image_empty_text_counterexample:
  "first_parts (sample_env (one_candidate [text_only_part []]) 5)
       (one_candidate [text_only_part []]) = Inr (Some [text_only_part []])
   \<and> inlineData (text_only_part []) = None
   \<and> text_part (text_only_part []) = Some []
   \<and> error (handleFuseClick (sample_env (one_candidate [text_only_part []]) 5) sample_state)
       = ''The AI could not generate an image from your request.''
   \<and> error (handleFuseClick (sample_env (one_candidate [text_only_part []]) 5) sample_state)
       \<noteq> []
   \<and> error (handleFuseClick
         (sample_env \<lparr> candidates = Some [\<lparr> content = None \<rparr>] \<rparr> 5) sample_state)
       = ''Cannot read properties of undefined (reading '' @ [CHR 0x27] @ ''parts''
           @ [CHR 0x27] @ '')''
   \<and> error (handleFuseClick
         (sample_env \<lparr> candidates = Some [\<lparr> content = None \<rparr>] \<rparr> 5) sample_state)
       \<noteq> ''The AI could not generate an image from your request.''"
proof -
  have "fuse_body (sample_env (one_candidate [text_only_part []]) 5) (images sample_state)
          (imageCount sample_state) (prompt sample_state)
        = Inl (Thrown (Some (or_else (Some [])
            ''The AI could not generate an image from your request.'')))"
    by (rule sample_fuse_text_only) (simp_all add: sample_shown_fields)
  from handleFuseClick_failure [OF this]
  have a: "error (handleFuseClick (sample_env (one_candidate [text_only_part []]) 5) sample_state)
       = ''The AI could not generate an image from your request.''"
    by (simp add: or_else_def)
  let ?r = "\<lparr> candidates = Some [\<lparr> content = None \<rparr>] \<rparr>"
  have "fuse_request (sample_env ?r 5) (images sample_state) (imageCount sample_state)
          (prompt sample_state) = Inr ?r"
    by (rule sample_request) (simp_all add: sample_shown_fields)
  moreover have "interpret_response (sample_env ?r 5) ?r
      = Inl (Thrown (Some (engine_message ''parts'')))"
    by (simp add: interpret_response_def first_parts_def sample_env_def Error_def)
  ultimately have "fuse_body (sample_env ?r 5) (images sample_state)
          (imageCount sample_state) (prompt sample_state)
        = Inl (Thrown (Some (engine_message ''parts'')))"
    by (simp add: fuse_body_def)
  from handleFuseClick_failure [OF this]
  have b: "error (handleFuseClick (sample_env ?r 5) sample_state)
       = ''Cannot read properties of undefined (reading '' @ [CHR 0x27] @ ''parts''
           @ [CHR 0x27] @ '')''"
    by (simp add: or_else_def engine_message_def)
  from a b show ?thesis
    by (simp add: sample_parts text_only_part_def)
qed

text \<open>
  C9, as amended. When the first candidate carries a list of content parts and no part
  carries a non-empty text (each text is absent or the empty string): with an image part
  the fusion succeeds and the caption is the fallback \<open>Here is your fused image!\<close>;
  without an image part the fusion fails and the error message is the fixed fallback, not
  the empty string.
\<close>

theorem empty_text_is_absent:
  assumes "fuse_request e (images s) (imageCount s) (prompt s) = Inr r"
    and "first_parts e r = Inr (Some ps)"
    and "\<forall>p\<in>set ps. text_part p = None \<or> text_part p = Some []"
  shows "((\<exists>p\<in>set ps. inlineData p \<noteq> None) \<longrightarrow>
            \<not> fusion_fails e s
            \<and> map_option text_result (activeResult (handleFuseClick e s))
                = Some ''Here is your fused image!'')
    \<and> ((\<forall>p\<in>set ps. inlineData p = None) \<longrightarrow>
            fusion_fails e s
            \<and> error (handleFuseClick e s) =
                ''The AI could not generate an image from your request.'')"
proof -
  have t: "textPart_text (Some ps) = None" using assms(3) by (rule text_absent)
  have img: "\<not> fusion_fails e s
      \<and> map_option text_result (activeResult (handleFuseClick e s))
           = Some ''Here is your fused image!''"
    if "\<exists>p\<in>set ps. inlineData p \<noteq> None"
  proof -
    from that obtain ipre ip ipost where
      sp: "ps = ipre @ ip # ipost" and ip: "inlineData ip \<noteq> None"
      and pre: "\<forall>p\<in>set ipre. \<not> inlineData p \<noteq> None"
      using split_list_first_prop [of ps "\<lambda>p. inlineData p \<noteq> None"] by blast
    from ip obtain d where d: "inlineData ip = Some d" by blast
    from assms(2) sp have fp: "first_parts e r = Inr (Some (ipre @ ip # ipost))" by simp
    from pre have pre': "\<forall>p\<in>set ipre. inlineData p = None" by simp
    have "interpret_response e r =
           Inr \<lparr> id_result = toString (now e),
                 image = ''data:'' @ mimeType_inline d @ '';base64,'' @ data_inline d,
                 text_result = ''Here is your fused image!'' \<rparr>"
      using interpret_image [OF fp pre' d] t sp by (simp add: or_else_def)
    then have b: "fuse_body e (images s) (imageCount s) (prompt s) =
           Inr \<lparr> id_result = toString (now e),
                 image = ''data:'' @ mimeType_inline d @ '';base64,'' @ data_inline d,
                 text_result = ''Here is your fused image!'' \<rparr>"
      using assms(1) by (simp add: fuse_body_response)
    from handleFuseClick_success [OF b] b show ?thesis by (simp add: fusion_fails_def)
  qed
  have noimg: "fusion_fails e s
      \<and> error (handleFuseClick e s) = ''The AI could not generate an image from your request.''"
    if ni: "\<forall>p\<in>set ps. inlineData p = None"
  proof -
    have b: "fuse_body e (images s) (imageCount s) (prompt s) =
        Inl (Thrown (Some ''The AI could not generate an image from your request.''))"
      using assms(1) interpret_no_image [OF assms(2) ni] t
      by (simp add: fuse_body_response Error_def or_else_def)
    from handleFuseClick_failure [OF b] b show ?thesis
      by (simp add: fusion_fails_def or_else_def)
  qed
  from img noimg show ?thesis by blast
qed

theorem empty_text_is_absent_witness:
  "\<not> fusion_fails
       (sample_env (one_candidate [image_part ''image/png'' ''QUJD'', text_only_part []]) 9)
       sample_state
   \<and> map_option text_result (activeResult (handleFuseClick
         (sample_env (one_candidate [image_part ''image/png'' ''QUJD'', text_only_part []]) 9)
         sample_state)) = Some ''Here is your fused image!''
   \<and> fusion_fails (sample_env (one_candidate [text_only_part []]) 9) sample_state
   \<and> error (handleFuseClick (sample_env (one_candidate [text_only_part []]) 9) sample_state)
       = ''The AI could not generate an image from your request.''"
proof -
  let ?r = "one_candidate [image_part ''image/png'' ''QUJD'', text_only_part []]"
  have req: "fuse_request (sample_env ?r 9) (images sample_state) (imageCount sample_state)
               (prompt sample_state) = Inr ?r"
    by (rule sample_request) (simp_all add: sample_shown_fields)
  have et: "\<forall>p\<in>set [image_part ''image/png'' ''QUJD'', text_only_part []].
              text_part p = None \<or> text_part p = Some []"
    by (simp add: image_part_def text_only_part_def)
  have im: "\<exists>p\<in>set [image_part ''image/png'' ''QUJD'', text_only_part []]. inlineData p \<noteq> None"
    by (simp add: image_part_def)
  note a = empty_text_is_absent [OF req sample_parts et, THEN conjunct1, THEN mp, OF im]
  let ?q = "one_candidate [text_only_part []]"
  have req': "fuse_request (sample_env ?q 9) (images sample_state) (imageCount sample_state)
               (prompt sample_state) = Inr ?q"
    by (rule sample_request) (simp_all add: sample_shown_fields)
  have et': "\<forall>p\<in>set [text_only_part []]. text_part p = None \<or> text_part p = Some []"
    by (simp add: text_only_part_def)
  have ni: "\<forall>p\<in>set [text_only_part []]. inlineData p = None"
    by (simp add: text_only_part_def)
  note b = empty_text_is_absent [OF req' sample_parts et', THEN conjunct2, THEN mp, OF ni]
  from a [THEN conjunct1] a [THEN conjunct2] b [THEN conjunct1] b [THEN conjunct2]
  show ?thesis by (intro conjI)
qed

text \<open>A text part carrying the empty string does not give the fallback when a later part
  carries a non-empty text: the caption, or the error message, is that later text.\<close>

theorem empty_text_later_text_counterexample:
  "text_part (text_only_part []) = Some []
   \<and> map_option text_result (activeResult (handleFuseClick
         (sample_env (one_candidate
            [image_part ''image/png'' ''QUJD'', text_only_part [], text_only_part ''hello'']) 9)
         sample_state)) = Some ''hello''
   \<and> map_option text_result (activeResult (handleFuseClick
         (sample_env (one_candidate
            [image_part ''image/png'' ''QUJD'', text_only_part [], text_only_part ''hello'']) 9)
         sample_state)) \<noteq> Some ''Here is your fused image!''
   \<and> error (handleFuseClick
         (sample_env (one_candidate [text_only_part [], text_only_part ''blocked'']) 9)
         sample_state) = ''blocked''
   \<and> error (handleFuseClick
         (sample_env (one_candidate [text_only_part [], text_only_part ''blocked'']) 9)
         sample_state) \<noteq> ''The AI could not generate an image from your request.''"
proof -
  let ?r = "one_candidate
      [image_part ''image/png'' ''QUJD'', text_only_part [], text_only_part ''hello'']"
  let ?q = "one_candidate [text_only_part [], text_only_part ''blocked'']"
  have "fuse_request (sample_env ?r 9) (images sample_state) (imageCount sample_state)
          (prompt sample_state) = Inr ?r"
    by (rule sample_request) (simp_all add: sample_shown_fields)
  moreover have "interpret_response (sample_env ?r 9) ?r =
      Inr \<lparr> id_result = ''9'', image = ''data:image/png;base64,QUJD'',
            text_result = ''hello'' \<rparr>"
    by (simp add: interpret_response_def imagePart_def textPart_text_def textPart_def
        sample_parts image_part_def text_only_part_def or_else_def
        sample_env_def toString.simps digit_def)
  ultimately have "fuse_body (sample_env ?r 9) (images sample_state) (imageCount sample_state)
          (prompt sample_state) =
      Inr \<lparr> id_result = ''9'', image = ''data:image/png;base64,QUJD'',
            text_result = ''hello'' \<rparr>"
    by (simp add: fuse_body_def)
  from handleFuseClick_success [OF this]
  have a: "map_option text_result (activeResult (handleFuseClick (sample_env ?r 9)
             sample_state)) = Some ''hello''"
    by simp
  have "fuse_request (sample_env ?q 9) (images sample_state) (imageCount sample_state)
          (prompt sample_state) = Inr ?q"
    by (rule sample_request) (simp_all add: sample_shown_fields)
  moreover have "interpret_response (sample_env ?q 9) ?q = Inl (Thrown (Some ''blocked''))"
    by (simp add: interpret_response_def imagePart_def textPart_text_def textPart_def
        sample_parts text_only_part_def or_else_def Error_def)
  ultimately have "fuse_body (sample_env ?q 9) (images sample_state) (imageCount sample_state)
          (prompt sample_state) = Inl (Thrown (Some ''blocked''))"
    by (simp add: fuse_body_def)
  from handleFuseClick_failure [OF this]
  have b: "error (handleFuseClick (sample_env ?q 9) sample_state) = ''blocked''"
    by (simp add: or_else_def)
  have a2: "map_option text_result (activeResult (handleFuseClick (sample_env ?r 9)
             sample_state)) \<noteq> Some ''Here is your fused image!''"
    unfolding a by simp
  have b2: "error (handleFuseClick (sample_env ?q 9) sample_state)
      \<noteq> ''The AI could not generate an image from your request.''"
    unfolding b by simp
  have t: "text_part (text_only_part []) = Some []" by (simp add: text_only_part_def)
  from t a a2 b b2 show ?thesis by (intro conjI)
qed

subsection \<open>Fusion: failures and the active result\<close>

text \<open>
  C1, as amended. Every fusion attempt empties the active result when it starts, and the
  failure branch does not set it. So after a failed attempt (with no other event between
  its start and its end) the active result is empty, and it equals the active result
  before the attempt only when that was empty.
\<close>

theorem failed_fusion_active_result:
  "activeResult (fuse_begin s) = None
   \<and> activeResult (fuse_settle (Inl ex) s) = activeResult s
   \<and> (fusion_fails e s \<longrightarrow>
         activeResult (handleFuseClick e s) = None
         \<and> (activeResult (handleFuseClick e s) = activeResult s \<longleftrightarrow> activeResult s = None))"
proof -
  have a: "activeResult (fuse_begin s) = None" by (simp add: fuse_begin_def)
  have b: "activeResult (fuse_settle (Inl ex) s) = activeResult s"
    by (cases ex) (simp add: fuse_settle_def)
  have c: "activeResult (handleFuseClick e s) = None" if "fusion_fails e s"
  proof -
    from that obtain m where
      "fuse_body e (images s) (imageCount s) (prompt s) = Inl (Thrown m)"
      unfolding fusion_fails_iff by blast
    from handleFuseClick_failure [OF this] show ?thesis by simp
  qed
  from a b c show ?thesis by auto
qed

theorem failed_fusion_active_result_witness:
  "fusion_fails failing_env sample_state_shown
   \<and> activeResult sample_state_shown = Some (sample_result 1)
   \<and> activeResult (handleFuseClick failing_env sample_state_shown) = None
   \<and> fusion_fails failing_env sample_state
   \<and> activeResult sample_state = None
   \<and> activeResult (handleFuseClick failing_env sample_state) = activeResult sample_state"
proof -
  have r: "fuse_request failing_env (images s) (imageCount s) (prompt s)
             = Inl (Error ''Failed to fetch'')"
    if "images s = images sample_state" and "imageCount s = 2" for s
    using that
    by (simp add: fuse_request_def failing_env_def sample_state_def fileToBase64_def
        numeral_2_eq_2)
  have f1: "fusion_fails failing_env sample_state_shown"
    by (rule transport_fails, rule r) (simp_all add: sample_shown_fields)
  have f2: "fusion_fails failing_env sample_state"
    by (rule transport_fails, rule r) (simp_all add: sample_shown_fields)
  note t1 = failed_fusion_active_result [of sample_state_shown "Thrown None" failing_env,
      THEN conjunct2, THEN conjunct2, rule_format, OF f1]
  note t2 = failed_fusion_active_result [of sample_state "Thrown None" failing_env,
      THEN conjunct2, THEN conjunct2, rule_format, OF f2]
  have s1: "activeResult sample_state_shown = Some (sample_result 1)"
    by (simp add: sample_state_shown_def)
  have s2: "activeResult sample_state = None" by (simp add: sample_state_def)
  from t2 s2 have e2: "activeResult (handleFuseClick failing_env sample_state)
                        = activeResult sample_state" by simp
  from f1 s1 t1 [THEN conjunct1] f2 s2 e2 show ?thesis by (intro conjI)
qed

text \<open>A result on display is gone after a fusion that fails for lack of an image part.\<close>

theorem failed_fusion_counterexample:
  "fusion_fails (sample_env (one_candidate [text_only_part ''unsafe content'']) 5)
     sample_state_shown
   \<and> activeResult sample_state_shown = Some (sample_result 1)
   \<and> activeResult (handleFuseClick
        (sample_env (one_candidate [text_only_part ''unsafe content'']) 5) sample_state_shown)
      = None
   \<and> activeResult (handleFuseClick
        (sample_env (one_candidate [text_only_part ''unsafe content'']) 5) sample_state_shown)
      \<noteq> activeResult sample_state_shown"
proof -
  let ?e = "sample_env (one_candidate [text_only_part ''unsafe content'']) 5"
  have b: "fuse_body ?e (images sample_state_shown) (imageCount sample_state_shown)
          (prompt sample_state_shown)
        = Inl (Thrown (Some (or_else (Some ''unsafe content'')
            ''The AI could not generate an image from your request.'')))"
    by (rule sample_fuse_text_only) (simp_all add: sample_shown_fields)
  then have f: "fusion_fails ?e sample_state_shown" by (simp add: fusion_fails_def)
  have s1: "activeResult sample_state_shown = Some (sample_result 1)"
    by (simp add: sample_state_shown_def)
  have n: "activeResult (handleFuseClick ?e sample_state_shown) = None"
    using handleFuseClick_failure [OF b] by simp
  from n s1 have d: "activeResult (handleFuseClick ?e sample_state_shown)
      \<noteq> activeResult sample_state_shown" by simp
  from f s1 n d show ?thesis by (intro conjI)
qed

subsection \<open>The history\<close>

text \<open>
  C2. In every reachable state the history has at most 10 elements. A successful fusion
  puts the new result in front of the first 9 elements of the history, so a full history
  loses exactly its last element. After 11 successful fusions in a row the history is the
  last 10 results, most recent first, and the first result is not in it (when it differs
  from the later ones). A failed fusion and every other handler leave the history as it is.
\<close>

theorem history_bounded_front_insertion:
  "(reachable s \<longrightarrow> length (history s) \<le> 10)
   \<and> (fuse_body e (images s) (imageCount s) (prompt s) = Inr R \<longrightarrow>
        history (handleFuseClick e s) = R # take 9 (history s)
        \<and> (length (history s) = 10 \<longrightarrow> history (handleFuseClick e s) = R # butlast (history s)))
   \<and> (length rs = 11
        \<and> map (\<lambda>e. fuse_body e (images s) (imageCount s) (prompt s)) es = map Inr rs \<longrightarrow>
          history (fuse_all es s) = rev (tl rs)
          \<and> (hd rs \<notin> set (tl rs) \<longrightarrow> hd rs \<notin> set (history (fuse_all es s))))
   \<and> history (fuse_settle (Inr R) s) = R # take 9 (history s)
   \<and> history (fuse_settle (Inl ex) s) = history s
   \<and> history (fuse_begin s) = history s
   \<and> (fusion_fails e s \<longrightarrow> history (handleFuseClick e s) = history s)
   \<and> history (handleImageCountChange n s) = history s
   \<and> history (handleFileChange i f s) = history s
   \<and> history (handleRemoveImage i s) = history s
   \<and> history (setPrompt p s) = history s
   \<and> history (handleSelectHistory item s) = history s"
proof -
  have a: "reachable s \<longrightarrow> length (history s) \<le> 10"
    by (simp add: reachable_history_length)
  have b: "fuse_body e (images s) (imageCount s) (prompt s) = Inr R \<longrightarrow>
        history (handleFuseClick e s) = R # take 9 (history s)
        \<and> (length (history s) = 10 \<longrightarrow> history (handleFuseClick e s) = R # butlast (history s))"
  proof
    assume "fuse_body e (images s) (imageCount s) (prompt s) = Inr R"
    from handleFuseClick_success [OF this]
    have "history (handleFuseClick e s) = R # take 9 (history s)" by simp
    then show "history (handleFuseClick e s) = R # take 9 (history s)
        \<and> (length (history s) = 10 \<longrightarrow> history (handleFuseClick e s) = R # butlast (history s))"
      by (simp add: take_9_butlast)
  qed
  have c: "length rs = 11
        \<and> map (\<lambda>e. fuse_body e (images s) (imageCount s) (prompt s)) es = map Inr rs \<longrightarrow>
          history (fuse_all es s) = rev (tl rs)
          \<and> (hd rs \<notin> set (tl rs) \<longrightarrow> hd rs \<notin> set (history (fuse_all es s)))"
  proof
    assume h: "length rs = 11
        \<and> map (\<lambda>e. fuse_body e (images s) (imageCount s) (prompt s)) es = map Inr rs"
    then have eq: "map (\<lambda>e. fuse_body e (images s) (imageCount s) (prompt s)) es = map Inr rs"
      by (rule conjunct2)
    have "length es = length rs" using arg_cong [OF eq, of length] by simp
    with h have "length es = 11" by simp
    then have "es \<noteq> []" by auto
    with h have "history (fuse_all es s) = take 10 (rev rs @ history s)"
      by (simp add: fuse_all_history)
    also have "\<dots> = take 10 (rev rs)" using h by simp
    also have "\<dots> = rev (drop 1 rs)" using h by (simp add: take_rev)
    also have "\<dots> = rev (tl rs)" by (simp add: drop_Suc)
    finally have "history (fuse_all es s) = rev (tl rs)" .
    then show "history (fuse_all es s) = rev (tl rs)
          \<and> (hd rs \<notin> set (tl rs) \<longrightarrow> hd rs \<notin> set (history (fuse_all es s)))"
      by simp
  qed
  have d: "history (fuse_settle (Inr R) s) = R # take 9 (history s)"
    by (simp add: fuse_settle_def)
  have f: "history (fuse_settle (Inl ex) s) = history s"
    by (cases ex) (simp add: fuse_settle_def)
  have g: "history (fuse_begin s) = history s" by (simp add: fuse_begin_def)
  have k: "fusion_fails e s \<longrightarrow> history (handleFuseClick e s) = history s"
  proof
    assume "fusion_fails e s"
    then obtain m where
      "fuse_body e (images s) (imageCount s) (prompt s) = Inl (Thrown m)"
      unfolding fusion_fails_iff by blast
    from handleFuseClick_failure [OF this] show "history (handleFuseClick e s) = history s"
      by simp
  qed
  have l: "history (handleImageCountChange n s) = history s"
    by (simp add: handleImageCountChange_def)
  have m: "history (handleFileChange i f s) = history s"
    by (cases f) (simp_all add: handleFileChange_def)
  have o: "history (handleRemoveImage i s) = history s"
    by (simp add: handleRemoveImage_def)
  have q: "history (setPrompt p s) = history s" by (simp add: setPrompt_def)
  have u: "history (handleSelectHistory item s) = history s"
    by (simp add: handleSelectHistory_def)
  from a b c d f g k l m o q u show ?thesis by (intro conjI)
qed

theorem history_bounded_front_insertion_witness:
  "reachable (fuse_settle (Inr (sample_result 1)) (fuse_begin sample_state))
   \<and> length (history (fuse_settle (Inr (sample_result 1)) (fuse_begin sample_state))) \<le> 10
   \<and> history (handleFuseClick (sample_env sample_response 2) sample_state_shown)
       = [sample_result 2, sample_result 1]
   \<and> history (fuse_all sample_envs sample_state)
       = [sample_result 11, sample_result 10, sample_result 9, sample_result 8, sample_result 7,
          sample_result 6, sample_result 5, sample_result 4, sample_result 3, sample_result 2]
   \<and> sample_result 1 \<notin> set (history (fuse_all sample_envs sample_state))"
proof -
  let ?x = "fuse_settle (Inr (sample_result 1)) (fuse_begin sample_state)"
  let ?rs = "map sample_result [1, 2, 3, 4, 5, 6, 7, 8, 9, 10, 11]"
  have rx: "reachable ?x"
  proof (rule r_settle)
    show "reachable (fuse_begin sample_state)"
      by (rule r_begin [OF sample_state_reachable sample_state_enabled])
    show "loading (fuse_begin sample_state)" by (simp add: fuse_begin_def)
  qed
  have len: "length (history ?x) \<le> 10"
    by (rule history_bounded_front_insertion [where s = "?x", THEN conjunct1, THEN mp, OF rx])
  have b: "fuse_body (sample_env sample_response 2) (images sample_state_shown)
             (imageCount sample_state_shown) (prompt sample_state_shown) = Inr (sample_result 2)"
    using sample_fuse_ok [of 2] by (simp add: sample_state_shown_def)
  have one: "history (handleFuseClick (sample_env sample_response 2) sample_state_shown)
       = [sample_result 2, sample_result 1]"
    using history_bounded_front_insertion [where s = sample_state_shown
        and e = "sample_env sample_response 2" and R = "sample_result 2",
        THEN conjunct2, THEN conjunct1, THEN mp, OF b, THEN conjunct1]
    by (simp add: sample_state_shown_def)
  have hyp: "length ?rs = 11
        \<and> map (\<lambda>e. fuse_body e (images sample_state) (imageCount sample_state)
                  (prompt sample_state)) sample_envs = map Inr ?rs"
    by (simp add: sample_envs_def sample_fuse_ok)
  note t = history_bounded_front_insertion [where s = sample_state and rs = "?rs"
        and es = sample_envs, THEN conjunct2, THEN conjunct2, THEN conjunct1, THEN mp, OF hyp]
  have all: "history (fuse_all sample_envs sample_state)
       = [sample_result 11, sample_result 10, sample_result 9, sample_result 8, sample_result 7,
          sample_result 6, sample_result 5, sample_result 4, sample_result 3, sample_result 2]"
    using t [THEN conjunct1] by simp
  have dist: "hd ?rs \<notin> set (tl ?rs)"
    by (simp add: sample_result_def toString.simps digit_def)
  have "hd ?rs \<notin> set (history (fuse_all sample_envs sample_state))"
    by (rule t [THEN conjunct2, THEN mp, OF dist])
  then have absent: "sample_result 1 \<notin> set (history (fuse_all sample_envs sample_state))"
    by simp
  from rx len one all absent show ?thesis by (intro conjI)
qed

end
